theory Spec2Isabelle
  imports Main "HOL-Library.Word"
begin

unbundle bit_operations_syntax

section \<open>ChannelTracker (src/clientagent/ClientAgent.cpp, lines 214--240)\<close>

text \<open>
  \<open>channel_t\<close> is an unsigned machine integer whose typedef is not part of the file
  under study; its width is therefore kept as the type parameter \<open>'a\<close>, so that every
  result below holds for any width and \<open>+\<close> wraps around as the C++ \<open>++\<close> does.
\<close>

subsection \<open>The std::queue member\<close>

text \<open>
  \<open>m_unused_channels\<close> is a \<open>std::queue<channel_t>\<close>. It is modelled by the list of
  its elements, oldest first. \<open>front\<close> and \<open>pop\<close> are only called by the source after
  \<open>empty()\<close> has returned false.
\<close>

definition queue_empty :: "'x list \<Rightarrow> bool" where
  "queue_empty q = (q = [])"

definition queue_front :: "'x list \<Rightarrow> 'x" where
  "queue_front q = hd q"

definition queue_pop :: "'x list \<Rightarrow> 'x list" where
  "queue_pop q = tl q"

definition queue_push :: "'x \<Rightarrow> 'x list \<Rightarrow> 'x list" where
  "queue_push x q = q @ [x]"

subsection \<open>The class\<close>

record (overloaded) ('a :: len) ChannelTracker =
  m_next :: "'a word"
  m_max :: "'a word"
  m_unused_channels :: "'a word list"

text \<open>The constructor: \<open>m_next(min), m_max(max), m_unused_channels()\<close>.\<close>

definition ChannelTracker :: "'a :: len word \<Rightarrow> 'a word \<Rightarrow> 'a ChannelTracker" where
  "ChannelTracker min_c max_c =
     \<lparr>m_next = min_c, m_max = max_c, m_unused_channels = []\<rparr>"

text \<open>
  \<open>alloc_channel\<close> returns the channel and the updated tracker. \<open>return m_next++\<close>
  yields the old cursor and stores the incremented one; the final \<open>return 0\<close> is
  reached when the cursor is past \<open>m_max\<close> and the queue is empty.
\<close>

definition alloc_channel :: "'a :: len ChannelTracker \<Rightarrow> 'a word \<times> 'a ChannelTracker" where
  "alloc_channel t =
     (if m_next t \<le> m_max t then
        (m_next t, t\<lparr>m_next := m_next t + 1\<rparr>)
      else if \<not> queue_empty (m_unused_channels t) then
        (let c = queue_front (m_unused_channels t) in
           (c, t\<lparr>m_unused_channels := queue_pop (m_unused_channels t)\<rparr>))
      else (0, t))"

definition free_channel :: "'a :: len word \<Rightarrow> 'a ChannelTracker \<Rightarrow> 'a ChannelTracker" where
  "free_channel channel t =
     t\<lparr>m_unused_channels := queue_push channel (m_unused_channels t)\<rparr>"

subsection \<open>The contract of section 4.1, written from its words\<close>

text \<open>
  The specification describes \<open>allocate\<close> with a result that is either a channel or the
  distinguished value \<open>EXHAUSTED\<close>. The following definition follows that wording: the
  cursor is used while it has not gone past max, then the oldest released id is
  dequeued, then the result is \<open>EXHAUSTED\<close>. "Has not reached max" is read as "has not
  gone past max": it is the only reading under which the range \<open>[100,102]\<close> yields 102
  and under which the cursor can reach \<open>max + 1\<close>, as the same specification demands.
\<close>

datatype 'c allocation = Channel 'c | EXHAUSTED

fun dequeue_oldest :: "'x list \<Rightarrow> ('x \<times> 'x list) option" where
  "dequeue_oldest [] = None"
| "dequeue_oldest (x # xs) = Some (x, xs)"

definition allocate :: "'a :: len ChannelTracker \<Rightarrow> 'a word allocation \<times> 'a ChannelTracker" where
  "allocate t =
     (if m_next t \<le> m_max t then (Channel (m_next t), t\<lparr>m_next := m_next t + 1\<rparr>)
      else case dequeue_oldest (m_unused_channels t) of
             Some (c, rest) \<Rightarrow> (Channel c, t\<lparr>m_unused_channels := rest\<rparr>)
           | None \<Rightarrow> (EXHAUSTED, t))"

text \<open>The source encodes \<open>EXHAUSTED\<close> as the channel value 0.\<close>

fun encode :: "'a :: len word allocation \<Rightarrow> 'a word" where
  "encode (Channel c) = c"
| "encode EXHAUSTED = 0"

subsection \<open>Sequences of calls\<close>

text \<open>
  A client of the tracker performs a sequence of \<open>alloc_channel\<close> and \<open>free_channel\<close>
  calls. The history record threads the tracker through the calls and keeps three
  observations that the tracker itself does not store: the values returned by the
  \<open>alloc_channel\<close> calls in call order, the ids handed out so far (\<open>issued\<close>), and the
  ids handed out and not released since (\<open>live\<close>). An \<open>alloc_channel\<close> call hands out
  an id when it returns from the cursor branch or from the queue branch.
\<close>

datatype 'c op = Alloc | Free 'c

record (overloaded) ('a :: len) history =
  tracker :: "'a ChannelTracker"
  returned :: "'a word list"
  issued :: "'a word list"
  live :: "'a word list"

definition hands_out :: "'a :: len ChannelTracker \<Rightarrow> bool" where
  "hands_out t = (m_next t \<le> m_max t \<or> \<not> queue_empty (m_unused_channels t))"

fun step :: "'a :: len word op \<Rightarrow> 'a history \<Rightarrow> 'a history" where
  "step Alloc h =
     (let (c, t') = alloc_channel (tracker h) in
        if hands_out (tracker h) then
          h\<lparr>tracker := t', returned := returned h @ [c],
            issued := issued h @ [c], live := live h @ [c]\<rparr>
        else h\<lparr>tracker := t', returned := returned h @ [c]\<rparr>)"
| "step (Free c) h =
     h\<lparr>tracker := free_channel c (tracker h), live := remove1 c (live h)\<rparr>"

fun run :: "'a :: len word op list \<Rightarrow> 'a history \<Rightarrow> 'a history" where
  "run [] h = h"
| "run (x # xs) h = run xs (step x h)"

definition start :: "'a :: len word \<Rightarrow> 'a word \<Rightarrow> 'a history" where
  "start min_c max_c =
     \<lparr>tracker = ChannelTracker min_c max_c, returned = [], issued = [], live = []\<rparr>"

text \<open>
  The caller contract of section 4.1: every \<open>free_channel\<close> argument is an id that is
  live at the moment of the call.
\<close>

fun releases_live :: "'a :: len word op list \<Rightarrow> 'a history \<Rightarrow> bool" where
  "releases_live [] h = True"
| "releases_live (Alloc # xs) h = releases_live xs (step Alloc h)"
| "releases_live (Free c # xs) h = (c \<in> set (live h) \<and> releases_live xs (step (Free c) h))"

text \<open>
  The weaker condition: every \<open>free_channel\<close> argument is an id that \<open>alloc_channel\<close>
  has handed out before the call. It allows releasing the same id twice.
\<close>

fun releases_issued :: "'a :: len word op list \<Rightarrow> 'a history \<Rightarrow> bool" where
  "releases_issued [] h = True"
| "releases_issued (Alloc # xs) h = releases_issued xs (step Alloc h)"
| "releases_issued (Free c # xs) h =
     (c \<in> set (issued h) \<and> releases_issued xs (step (Free c) h))"

subsection \<open>State predicates\<close>

text \<open>
  The three parts of the invariant of section 3. The cursor bound is read on the
  natural numbers, where \<open>max + 1\<close> does not wrap.
\<close>

definition cursor_bounded :: "'a :: len ChannelTracker \<Rightarrow> bool" where
  "cursor_bounded t = (unat (m_next t) \<le> unat (m_max t) + 1)"

definition queue_issued :: "'a :: len history \<Rightarrow> bool" where
  "queue_issued h = (set (m_unused_channels (tracker h)) \<subseteq> set (issued h))"

definition queue_not_live :: "'a :: len history \<Rightarrow> bool" where
  "queue_not_live h = (set (m_unused_channels (tracker h)) \<inter> set (live h) = {})"

text \<open>Auxiliary invariants of the proofs.\<close>

definition accounted :: "'a :: len history \<Rightarrow> bool" where
  "accounted h =
     (set (live h) \<subseteq> set (issued h) \<and> set (m_unused_channels (tracker h)) \<subseteq> set (issued h))"

definition separated :: "'a :: len history \<Rightarrow> bool" where
  "separated h =
     (distinct (live h @ m_unused_channels (tracker h)) \<and>
      list_all (\<lambda>c. c < m_next (tracker h)) (live h @ m_unused_channels (tracker h)))"

definition zero_free :: "'a :: len history \<Rightarrow> bool" where
  "zero_free h =
     (0 \<notin> set (issued h) \<and> 0 \<notin> set (m_unused_channels (tracker h)) \<and>
      (m_next (tracker h) = 0 \<longrightarrow> m_max (tracker h) < m_next (tracker h)))"

section \<open>ClientAgent (src/clientagent/ClientAgent.cpp, lines 13--205)\<close>

subsection \<open>Configuration\<close>

text \<open>
  The configuration variables declared at the top of the file, with the values
  \<open>get_rval(roleconfig)\<close> yields for them. The \<open>client\<close> child node is handed to the
  client factory as it is and is kept as its text.
\<close>

record (overloaded) ('a :: len) RoleConfig =
  bind_addr :: string
  server_version :: string
  override_hash :: "32 word"
  tls_cert :: string
  tls_key :: string
  tls_chain :: string
  sslv2_enabled :: bool
  sslv3_enabled :: bool
  tlsv1_enabled :: bool
  min_channel :: "'a word"
  max_channel :: "'a word"
  ca_client_type :: string
  ca_client_config :: string

text \<open>
  The defaults of the declarations (lines 14--42). The channel bounds default to the
  invalid channel, which the constraints reject, so they are arguments here.
\<close>

definition default_roleconfig :: "'a :: len word \<Rightarrow> 'a word \<Rightarrow> 'a RoleConfig" where
  "default_roleconfig min_c max_c =
     \<lparr>bind_addr = ''0.0.0.0:7198'', server_version = ''dev'', override_hash = 0,
      tls_cert = [], tls_key = [], tls_chain = [],
      sslv2_enabled = False, sslv3_enabled = False, tlsv1_enabled = True,
      min_channel = min_c, max_channel = max_c,
      ca_client_type = ''libastron'', ca_client_config = []\<rparr>"

subsection \<open>What the constructor calls outside this file\<close>

text \<open>
  The schema hash function and the global schema, the option constants of the TLS
  library, the loading of TLS material (false where the library throws), the result
  of binding the acceptor, and the two texts that only appear in the bind diagnostic.
  They are parameters of the model.
\<close>

record 'f Environment =
  g_dcf :: 'f
  legacy_hash :: "'f \<Rightarrow> 32 word"
  default_workarounds :: int
  no_sslv2 :: int
  no_sslv3 :: int
  no_tlsv1 :: int
  use_certificate_file :: "string \<Rightarrow> bool"
  use_private_key_file :: "string \<Rightarrow> bool"
  use_certificate_chain_file :: "string \<Rightarrow> bool"
  bind_ec :: "string \<Rightarrow> nat \<Rightarrow> int"
  ec_message :: "int \<Rightarrow> string"
  bind_addr_val :: string

subsection \<open>Acceptors, connections and observable events\<close>

record ssl_context =
  ctx_options :: int
  ctx_certificate :: string
  ctx_private_key :: string
  ctx_chain :: "string option"

datatype NetworkAcceptor = TcpAcceptor | SslAcceptor ssl_context

record endpoint =
  address :: string
  port :: nat

text \<open>\<open>remote_endpoint\<close> is \<open>None\<close> where the call throws: the peer is gone.\<close>

record socket =
  remote_endpoint :: "endpoint option"

record ssl_stream =
  next_layer :: socket

datatype connection = TcpSocket socket | SslStream ssl_stream

text \<open>
  One \<open>Log\<close> event is one statement on a log stream, with the items sent to it. The
  other events are the calls that leave the agent: binding and starting the acceptor
  and handing a connection to the client factory.
\<close>

datatype severity = Debug | Fatal

datatype item = Str string | Num int | Endl

datatype event =
    Log severity "item list"
  | Bind string nat
  | Start
  | Instantiate_client string string connection

fun is_Bind :: "event \<Rightarrow> bool" where
  "is_Bind (Bind a p) = True"
| "is_Bind e = False"

fun is_Log :: "event \<Rightarrow> bool" where
  "is_Log (Log s m) = True"
| "is_Log e = False"

text \<open>
  A constructor run ends in a constructed object, in \<open>exit(code)\<close>, or in an exception
  of the TLS library that the constructor does not catch.
\<close>

datatype 'r outcome = Constructed 'r | Exited int | Threw

subsection \<open>The class\<close>

record (overloaded) ('a :: len) ClientAgent =
  m_net_acceptor :: "NetworkAcceptor option"
  m_server_version :: string
  m_log :: string
  m_client_type :: string
  m_ct :: "'a ChannelTracker"
  m_clientconfig :: string
  m_hash :: "32 word"

text \<open>Lines 134--146: bind, report a failure and exit, or start the acceptor.\<close>

definition begin_listening ::
  "'f Environment \<Rightarrow> 'a :: len RoleConfig \<Rightarrow> 'a ClientAgent
     \<Rightarrow> 'a ClientAgent outcome \<times> event list" where
  "begin_listening env roleconfig this =
     (let ec = bind_ec env (bind_addr roleconfig) 7198 in
        if ec \<noteq> 0 then
          (Exited 1,
           [Bind (bind_addr roleconfig) 7198,
            Log Fatal [Str ''Could not bind listening port: '', Str (bind_addr_val env), Endl],
            Log Fatal [Str ''Error code: '', Num ec, Str ''('', Str (ec_message env ec),
                       Str '')'', Endl]])
        else (Constructed this, [Bind (bind_addr roleconfig) 7198, Start]))"

text \<open>Lines 103--116: the protocol options of the TLS context.\<close>

definition tls_options :: "'f Environment \<Rightarrow> 'a :: len RoleConfig \<Rightarrow> int" where
  "tls_options env roleconfig =
     (let options = default_workarounds env;
          options = (if \<not> sslv2_enabled roleconfig then options OR no_sslv2 env else options);
          options = (if \<not> sslv3_enabled roleconfig then options OR no_sslv3 env else options);
          options = (if \<not> tlsv1_enabled roleconfig then options OR no_tlsv1 env else options)
      in options)"

text \<open>
  The constructor, lines 50--147. The members are set first, then the transport is
  chosen from the certificate and the key file.
\<close>

definition ClientAgent ::
  "'f Environment \<Rightarrow> 'a :: len RoleConfig \<Rightarrow> 'a ClientAgent outcome \<times> event list" where
  "ClientAgent env roleconfig =
     (let config_hash = override_hash roleconfig;
          this = \<lparr>m_net_acceptor = None,
                  m_server_version = server_version roleconfig,
                  m_log = ''Client Agent ('' @ bind_addr roleconfig @ '')'',
                  m_client_type = ca_client_type roleconfig,
                  m_ct = ChannelTracker (min_channel roleconfig) (max_channel roleconfig),
                  m_clientconfig = ca_client_config roleconfig,
                  m_hash = (if config_hash > 0 then config_hash
                            else legacy_hash env (g_dcf env))\<rparr>;
          certificate = tls_cert roleconfig;
          key_file = tls_key roleconfig
      in
        if certificate = [] \<and> key_file = [] then
          begin_listening env roleconfig (this\<lparr>m_net_acceptor := Some TcpAcceptor\<rparr>)
        else if (certificate = []) \<noteq> (key_file = []) then
          (Exited 1,
           [Log Fatal [Str (''TLS requested but either certificate or key is missing.''
                            @ [CHR 0x0A])]])
        else
          (let options = tls_options env roleconfig;
               chain_file = tls_chain roleconfig
           in
             if \<not> use_certificate_file env certificate then (Threw, [])
             else if \<not> use_private_key_file env (tls_key roleconfig) then (Threw, [])
             else if chain_file \<noteq> [] \<and> \<not> use_certificate_chain_file env chain_file
               then (Threw, [])
             else
               begin_listening env roleconfig
                 (this\<lparr>m_net_acceptor := Some (SslAcceptor
                    \<lparr>ctx_options = options, ctx_certificate = certificate,
                     ctx_private_key = tls_key roleconfig,
                     ctx_chain = (if chain_file \<noteq> [] then Some chain_file else None)\<rparr>)\<rparr>)))"

text \<open>
  The two accept callbacks, lines 155--198. The call of the client factory is recorded
  as an event; the factory is not part of this file.
\<close>

definition handle_tcp :: "'a :: len ClientAgent \<Rightarrow> socket \<Rightarrow> 'a ClientAgent \<times> event list" where
  "handle_tcp this sock =
     (case remote_endpoint sock of
        None \<Rightarrow> (this, [])
      | Some remote \<Rightarrow>
          (this,
           [Log Debug [Str ''Got an incoming connection from '', Str (address remote),
                       Str '':'', Num (int (port remote)), Endl],
            Instantiate_client (m_client_type this) (m_clientconfig this) (TcpSocket sock)]))"

definition handle_ssl :: "'a :: len ClientAgent \<Rightarrow> ssl_stream \<Rightarrow> 'a ClientAgent \<times> event list" where
  "handle_ssl this stream =
     (case remote_endpoint (next_layer stream) of
        None \<Rightarrow> (this, [])
      | Some remote \<Rightarrow>
          (this,
           [Log Debug [Str ''Got an incoming connection from '', Str (address remote),
                       Str '':'', Num (int (port remote)), Endl],
            Instantiate_client (m_client_type this) (m_clientconfig this) (SslStream stream)]))"

text \<open>\<open>handle_datagram\<close>, lines 202--205, has an empty body.\<close>

definition handle_datagram :: "'a :: len ClientAgent \<Rightarrow> 'd \<Rightarrow> 'a ClientAgent \<times> event list" where
  "handle_datagram this dg = (this, [])"

subsection \<open>A sample environment\<close>

text \<open>
  Concrete evaluations below need values for the parameters. The sample environment
  has a constant schema hash, loads every file, binds with success and uses the option
  values of a common TLS library build.
\<close>

definition sample_env :: "unit Environment" where
  "sample_env =
     \<lparr>g_dcf = (), legacy_hash = (\<lambda>_. 0x2A3B4C5D),
      default_workarounds = 0x80000BFF, no_sslv2 = 0x01000000,
      no_sslv3 = 0x02000000, no_tlsv1 = 0x04000000,
      use_certificate_file = (\<lambda>_. True), use_private_key_file = (\<lambda>_. True),
      use_certificate_chain_file = (\<lambda>_. True),
      bind_ec = (\<lambda>_ _. 0), ec_message = (\<lambda>_. []), bind_addr_val = ''0.0.0.0:7198''\<rparr>"

definition sample_agent :: "64 ClientAgent" where
  "sample_agent =
     \<lparr>m_net_acceptor = Some TcpAcceptor, m_server_version = ''dev'',
      m_log = ''Client Agent (0.0.0.0:7198)'', m_client_type = ''libastron'',
      m_ct = ChannelTracker 100 102, m_clientconfig = [], m_hash = 0x2A3B4C5D\<rparr>"

section \<open>Results on the tracker\<close>

subsection \<open>Word arithmetic at the cursor\<close>

lemma cursor_below_top: "(x :: 'a :: len word) \<le> m \<Longrightarrow> m \<noteq> - 1 \<Longrightarrow> x \<noteq> - 1"
  using word_order.extremum_unique by blast

lemma cursor_succ_greater: "(x :: 'a :: len word) \<noteq> - 1 \<Longrightarrow> x < x + 1"
  using inc_less_eq_triv_imp linorder_not_less by blast

lemma cursor_succ_nonzero: "(x :: 'a :: len word) \<noteq> - 1 \<Longrightarrow> x + 1 \<noteq> 0"
  using max_word_wrap by auto

lemma unat_cursor_succ: "unat ((x :: 'a :: len word) + 1) \<le> unat x + 1"
  by (metis (mono_tags, lifting) of_nat_add of_nat_le_iff of_nat_unat
    uint_add_le unsigned_1)

subsection \<open>Evaluating a call on an explicit state\<close>

lemma step_Alloc_cursor:
  "n \<le> m \<Longrightarrow>
   step Alloc \<lparr>tracker = \<lparr>m_next = n, m_max = m, m_unused_channels = q\<rparr>,
               returned = r, issued = i, live = l\<rparr> =
     \<lparr>tracker = \<lparr>m_next = n + 1, m_max = m, m_unused_channels = q\<rparr>,
      returned = r @ [n], issued = i @ [n], live = l @ [n]\<rparr>"
  by (simp add: alloc_channel_def hands_out_def)

lemma step_Alloc_queue:
  "\<not> n \<le> m \<Longrightarrow>
   step Alloc \<lparr>tracker = \<lparr>m_next = n, m_max = m, m_unused_channels = c # q\<rparr>,
               returned = r, issued = i, live = l\<rparr> =
     \<lparr>tracker = \<lparr>m_next = n, m_max = m, m_unused_channels = q\<rparr>,
      returned = r @ [c], issued = i @ [c], live = l @ [c]\<rparr>"
  by (simp add: alloc_channel_def hands_out_def queue_empty_def queue_front_def queue_pop_def)

lemma step_Alloc_exhausted:
  "\<not> n \<le> m \<Longrightarrow>
   step Alloc \<lparr>tracker = \<lparr>m_next = n, m_max = m, m_unused_channels = []\<rparr>,
               returned = r, issued = i, live = l\<rparr> =
     \<lparr>tracker = \<lparr>m_next = n, m_max = m, m_unused_channels = []\<rparr>,
      returned = r @ [0], issued = i, live = l\<rparr>"
  by (simp add: alloc_channel_def hands_out_def queue_empty_def)

lemma step_Free_explicit:
  "step (Free c) \<lparr>tracker = \<lparr>m_next = n, m_max = m, m_unused_channels = q\<rparr>,
                  returned = r, issued = i, live = l\<rparr> =
     \<lparr>tracker = \<lparr>m_next = n, m_max = m, m_unused_channels = q @ [c]\<rparr>,
      returned = r, issued = i, live = remove1 c l\<rparr>"
  by (simp add: free_channel_def queue_push_def)

lemmas eval_calls =
  start_def ChannelTracker_def step_Alloc_cursor step_Alloc_queue step_Alloc_exhausted
  step_Free_explicit

subsection \<open>What a call leaves alone\<close>

lemma m_max_alloc_channel [simp]: "m_max (snd (alloc_channel t)) = m_max t"
  by (simp add: alloc_channel_def Let_def)

lemma m_max_step [simp]: "m_max (tracker (step x h)) = m_max (tracker h)"
  by (cases x) (simp_all add: free_channel_def split_beta Let_def)

lemma m_max_start: "m_max (tracker (start min_c max_c)) = max_c"
  by (simp add: start_def ChannelTracker_def)

lemma run_append: "run (xs @ ys) h = run ys (run xs h)"
  by (induction xs arbitrary: h) simp_all

subsection \<open>The algorithm of alloc\_channel and free\_channel\<close>

text \<open>
  Claim C1. \<open>alloc_channel\<close> follows the three-way algorithm of the contract: the
  cursor while it has not gone past \<open>m_max\<close> (the queue is not looked at in that
  case), else the oldest released id, else \<open>EXHAUSTED\<close>, which the code encodes as 0.
  The function is total, so a call always returns.
\<close>

theorem alloc_channel_refines_allocate:
  "alloc_channel t = (encode (fst (allocate t)), snd (allocate t))"
  by (cases "m_unused_channels t")
     (simp_all add: alloc_channel_def allocate_def queue_empty_def queue_front_def
        queue_pop_def)

text \<open>
  Reuse is first in, first out: once the cursor is past \<open>m_max\<close> and the queue is
  empty, releasing the ids \<open>cs\<close> and then allocating as many times returns \<open>cs\<close> in
  the order of release.
\<close>

lemma run_frees:
  "tracker (run (map Free cs) h) =
     (tracker h)\<lparr>m_unused_channels := m_unused_channels (tracker h) @ cs\<rparr> \<and>
   returned (run (map Free cs) h) = returned h"
  by (induction cs arbitrary: h) (simp_all add: free_channel_def queue_push_def)

lemma run_allocs_drain:
  "\<not> m_next (tracker h) \<le> m_max (tracker h) \<Longrightarrow> m_unused_channels (tracker h) = q \<Longrightarrow>
   returned (run (replicate (length q) Alloc) h) = returned h @ q"
proof (induction q arbitrary: h)
  case Nil
  then show ?case by simp
next
  case (Cons c q)
  have "\<not> m_next (tracker (step Alloc h)) \<le> m_max (tracker (step Alloc h))"
    and "m_unused_channels (tracker (step Alloc h)) = q"
    and "returned (step Alloc h) = returned h @ [c]"
    using Cons.prems
    by (simp_all add: alloc_channel_def hands_out_def queue_empty_def queue_front_def
          queue_pop_def)
  then show ?case using Cons.IH [of "step Alloc h"] by (simp del: step.simps)
qed

lemma reuse_is_fifo:
  assumes "\<not> m_next (tracker h) \<le> m_max (tracker h)"
    and "m_unused_channels (tracker h) = []"
  shows "returned (run (map Free cs @ replicate (length cs) Alloc) h) = returned h @ cs"
proof -
  let ?h = "run (map Free cs) h"
  have "\<not> m_next (tracker ?h) \<le> m_max (tracker ?h)"
    and "m_unused_channels (tracker ?h) = cs" and "returned ?h = returned h"
    using assms by (simp_all add: run_frees)
  then show ?thesis using run_allocs_drain [of ?h cs] by (simp add: run_append)
qed

text \<open>
  While the cursor has not gone past \<open>m_max\<close> the result does not depend on the
  content of the queue, and the queue is left as it is.
\<close>

lemma fresh_cursor_ignores_queue:
  assumes "m_next t \<le> m_max t"
  shows "alloc_channel (t\<lparr>m_unused_channels := q\<rparr>) =
           (m_next t, t\<lparr>m_next := m_next t + 1, m_unused_channels := q\<rparr>)"
  using assms by (simp add: alloc_channel_def)

text \<open>
  Claim C2. Over the range \<open>[100,102]\<close> three allocations return 100, 101 and 102 in
  that order, the fourth returns the \<open>EXHAUSTED\<close> encoding 0, and after
  \<open>free_channel(101)\<close> the next allocation returns 101.
\<close>

theorem range_100_102_scenario:
  "returned (run [Alloc, Alloc, Alloc, Alloc, Free 101, Alloc] (start (100 :: 64 word) 102))
     = [100, 101, 102, encode EXHAUSTED, 101]"
  by (simp add: eval_calls del: step.simps)

text \<open>
  Claim C5. \<open>free_channel\<close> appends its argument to the reuse queue whatever the
  argument is: the cursor and the bound are left alone, nothing is compared with the
  argument, and the function is total.
\<close>

theorem free_channel_unconditional:
  "free_channel c t = t\<lparr>m_unused_channels := m_unused_channels t @ [c]\<rparr>"
  by (simp add: free_channel_def queue_push_def)

subsection \<open>The cursor bound\<close>

lemma cursor_bounded_alloc: "cursor_bounded t \<Longrightarrow> cursor_bounded (snd (alloc_channel t))"
proof -
  assume b: "cursor_bounded t"
  show ?thesis
  proof (cases "m_next t \<le> m_max t")
    case True
    then have "unat (m_next t) \<le> unat (m_max t)" by (simp add: word_le_nat_alt)
    moreover have "unat (m_next t + 1) \<le> unat (m_next t) + 1" by (rule unat_cursor_succ)
    ultimately show ?thesis using True by (simp add: cursor_bounded_def alloc_channel_def)
  next
    case False
    then show ?thesis using b by (simp add: cursor_bounded_def alloc_channel_def Let_def)
  qed
qed

lemma cursor_bounded_step: "cursor_bounded (tracker h) \<Longrightarrow> cursor_bounded (tracker (step x h))"
proof (cases x)
  case Alloc
  assume "cursor_bounded (tracker h)"
  then have "cursor_bounded (snd (alloc_channel (tracker h)))" by (rule cursor_bounded_alloc)
  then show ?thesis using Alloc by (simp add: split_beta Let_def)
next
  case (Free c)
  assume "cursor_bounded (tracker h)"
  then show ?thesis using Free by (simp add: cursor_bounded_def free_channel_def)
qed

lemma cursor_bounded_run: "cursor_bounded (tracker h) \<Longrightarrow> cursor_bounded (tracker (run xs h))"
  by (induction xs arbitrary: h) (simp_all add: cursor_bounded_step)

lemma cursor_bounded_start: "min_c \<le> max_c \<Longrightarrow> cursor_bounded (tracker (start min_c max_c))"
  by (simp add: cursor_bounded_def start_def ChannelTracker_def word_le_nat_alt)

subsection \<open>Live and queued ids were issued\<close>

lemma accounted_step_Alloc: "accounted h \<Longrightarrow> accounted (step Alloc h)"
  by (cases "m_unused_channels (tracker h)")
     (auto simp: accounted_def alloc_channel_def hands_out_def queue_empty_def
        queue_front_def queue_pop_def Let_def)

lemma accounted_step_Free: "accounted h \<Longrightarrow> c \<in> set (live h) \<Longrightarrow> accounted (step (Free c) h)"
  by (auto simp: accounted_def free_channel_def queue_push_def dest: notin_set_remove1)

lemma accounted_start: "accounted (start min_c max_c)"
  by (simp add: accounted_def start_def ChannelTracker_def)

text \<open>Releasing only live ids is a special case of releasing only issued ids.\<close>

lemma releases_live_issued: "accounted h \<Longrightarrow> releases_live xs h \<Longrightarrow> releases_issued xs h"
proof (induction xs arbitrary: h)
  case Nil
  then show ?case by simp
next
  case (Cons x xs)
  show ?case
  proof (cases x)
    case Alloc
    with Cons show ?thesis by (simp add: accounted_step_Alloc del: step.simps)
  next
    case (Free c)
    with Cons.prems have "c \<in> set (live h)" by simp
    moreover from this Cons.prems have "c \<in> set (issued h)" by (auto simp: accounted_def)
    ultimately show ?thesis using Cons Free by (simp add: accounted_step_Free del: step.simps)
  qed
qed

subsection \<open>Queued ids were issued\<close>

lemma queue_issued_step_Alloc: "queue_issued h \<Longrightarrow> queue_issued (step Alloc h)"
  by (cases "m_unused_channels (tracker h)")
     (auto simp: queue_issued_def alloc_channel_def hands_out_def queue_empty_def
        queue_front_def queue_pop_def Let_def)

lemma queue_issued_step_Free:
  "queue_issued h \<Longrightarrow> c \<in> set (issued h) \<Longrightarrow> queue_issued (step (Free c) h)"
  by (auto simp: queue_issued_def free_channel_def queue_push_def)

lemma queue_issued_run: "queue_issued h \<Longrightarrow> releases_issued xs h \<Longrightarrow> queue_issued (run xs h)"
proof (induction xs arbitrary: h)
  case Nil
  then show ?case by simp
next
  case (Cons x xs)
  show ?case
  proof (cases x)
    case Alloc
    with Cons show ?thesis by (simp add: queue_issued_step_Alloc del: step.simps)
  next
    case (Free c)
    with Cons show ?thesis by (simp add: queue_issued_step_Free del: step.simps)
  qed
qed

lemma queue_issued_start: "queue_issued (start min_c max_c)"
  by (simp add: queue_issued_def start_def ChannelTracker_def)

subsection \<open>Live and queued ids are distinct and below the cursor\<close>

lemma separated_step_Alloc:
  assumes "separated h" and "m_max (tracker h) \<noteq> - 1"
  shows "separated (step Alloc h)"
proof (cases "m_next (tracker h) \<le> m_max (tracker h)")
  case True
  then have top: "m_next (tracker h) \<noteq> - 1" using assms(2) by (rule cursor_below_top)
  have "\<And>c. c < m_next (tracker h) \<Longrightarrow> c < m_next (tracker h) + 1"
    using cursor_succ_greater [OF top] by (rule less_trans[rotated])
  moreover have "m_next (tracker h) < m_next (tracker h) + 1"
    using top by (rule cursor_succ_greater)
  ultimately show ?thesis using assms(1) True
    by (auto simp: separated_def alloc_channel_def hands_out_def list_all_iff)
next
  case False
  then show ?thesis using assms(1)
    by (cases "m_unused_channels (tracker h)")
       (auto simp: separated_def alloc_channel_def hands_out_def queue_empty_def
          queue_front_def queue_pop_def Let_def)
qed

lemma separated_step_Free:
  assumes "separated h" and "c \<in> set (live h)"
  shows "separated (step (Free c) h)"
  using assms
  by (auto simp: separated_def free_channel_def queue_push_def list_all_iff
        dest: notin_set_remove1)

lemma separated_run:
  "separated h \<Longrightarrow> m_max (tracker h) \<noteq> - 1 \<Longrightarrow> releases_live xs h \<Longrightarrow> separated (run xs h)"
proof (induction xs arbitrary: h)
  case Nil
  then show ?case by simp
next
  case (Cons x xs)
  show ?case
  proof (cases x)
    case Alloc
    with Cons show ?thesis by (simp add: separated_step_Alloc del: step.simps)
  next
    case (Free c)
    with Cons show ?thesis by (simp add: separated_step_Free del: step.simps)
  qed
qed

lemma separated_start: "separated (start min_c max_c)"
  by (simp add: separated_def start_def ChannelTracker_def)

subsection \<open>Uniqueness of live channels\<close>

text \<open>
  Claim C3, as stated, quantifies over every sequence of calls. \<open>free_channel\<close> does
  not check its argument, so a sequence that releases the live id 100 twice gets 100
  handed out twice afterwards, and both results are live together.
\<close>

theorem double_release_duplicates_live_id:
  "\<not> distinct (live (run [Alloc, Free 100, Free 100, Alloc, Alloc, Alloc, Alloc]
                       (start (100 :: 64 word) 102)))"
  by (simp add: eval_calls del: step.simps)

text \<open>
  Claim C3, amended. For every sequence of \<open>alloc_channel\<close> and \<open>free_channel\<close> calls
  in which each \<open>free_channel\<close> argument is live at the moment of the call, on a
  tracker whose \<open>max\<close> is below the largest channel value, the ids that are handed out
  and not yet released are pairwise different.
\<close>

theorem live_ids_distinct:
  assumes "max_c \<noteq> - 1" and "releases_live xs (start min_c max_c)"
  shows "distinct (live (run xs (start min_c max_c)))"
proof -
  have "separated (run xs (start min_c max_c))"
    using separated_start assms by (intro separated_run) (simp_all add: m_max_start)
  then show ?thesis by (simp add: separated_def)
qed

text \<open>
  The amended statement at a concrete run over \<open>[100,102]\<close> that releases and reuses
  two ids.
\<close>

theorem live_ids_distinct_witness:
  "(102 :: 64 word) \<noteq> - 1 \<and>
   releases_live [Alloc, Alloc, Free 100, Alloc, Alloc, Free 101, Alloc] (start (100 :: 64 word) 102) \<and>
   live (run [Alloc, Alloc, Free 100, Alloc, Alloc, Free 101, Alloc] (start (100 :: 64 word) 102))
     = [102, 100, 101] \<and>
   distinct (live (run [Alloc, Alloc, Free 100, Alloc, Alloc, Free 101, Alloc]
     (start (100 :: 64 word) 102)))"
proof -
  have a: "(102 :: 64 word) \<noteq> - 1" by simp
  have b: "releases_live [Alloc, Alloc, Free 100, Alloc, Alloc, Free 101, Alloc]
             (start (100 :: 64 word) 102)"
    by (simp add: eval_calls del: step.simps)
  have c: "live (run [Alloc, Alloc, Free 100, Alloc, Alloc, Free 101, Alloc]
             (start (100 :: 64 word) 102)) = [102, 100, 101]"
    by (simp add: eval_calls del: step.simps)
  show ?thesis using a b c live_ids_distinct [OF a b] by blast
qed

text \<open>
  The bound on \<open>max\<close> cannot be dropped: with \<open>max\<close> the largest channel value the
  comparison \<open>m_next <= m_max\<close> is always true and the cursor wraps around. On
  two-bit channels the fifth allocation returns the first id again, with no release
  in between.
\<close>

lemma wrapping_cursor_reissues_live_id:
  "\<not> distinct (live (run [Alloc, Alloc, Alloc, Alloc, Alloc] (start (3 :: 2 word) 3)))"
  by (simp add: eval_calls del: step.simps)

subsection \<open>The invariant of the tracker state\<close>

text \<open>
  Claim C4, as stated, covers the states reached by any sequence of calls. After
  \<open>free_channel(5)\<close> on a fresh tracker over \<open>[100,102]\<close> the queue holds 5, which
  \<open>alloc_channel\<close> has never issued.
\<close>

theorem unissued_id_in_queue:
  "\<not> (cursor_bounded (tracker (run [Free 5] (start (100 :: 64 word) 102))) \<and>
      queue_issued (run [Free 5] (start (100 :: 64 word) 102)) \<and>
      queue_not_live (run [Free 5] (start (100 :: 64 word) 102)))"
  by (simp add: queue_issued_def eval_calls del: step.simps)

text \<open>
  The third part of the invariant fails in two more ways. First, releasing the issued
  id 100 twice over \<open>[100,102]\<close> leaves one copy of 100 in the queue after the other
  copy has been handed out again: every release is of an issued id, yet 100 is queued
  while live.
\<close>

lemma double_release_queues_live_id:
  "releases_issued [Alloc, Free 100, Free 100, Alloc, Alloc, Alloc] (start (100 :: 64 word) 102) \<and>
   \<not> queue_not_live (run [Alloc, Free 100, Free 100, Alloc, Alloc, Alloc]
        (start (100 :: 64 word) 102))"
  by (simp add: queue_not_live_def eval_calls del: step.simps)

text \<open>
  Second, with \<open>max\<close> the largest channel value the cursor wraps around and issues
  again an id that waits in the queue, although every release is of a live id. On
  two-bit channels over \<open>[3,3]\<close>: 3 is handed out and released, then the cursor hands
  out 0, 1, 2 and 3.
\<close>

lemma wrapped_cursor_issues_queued_id:
  "(3 :: 2 word) \<le> 3 \<and>
   releases_live [Alloc, Free 3, Alloc, Alloc, Alloc, Alloc] (start (3 :: 2 word) 3) \<and>
   \<not> queue_not_live (run [Alloc, Free 3, Alloc, Alloc, Alloc, Alloc] (start (3 :: 2 word) 3))"
  by (simp add: queue_not_live_def eval_calls del: step.simps)

text \<open>
  Claim C4, amended. From construction over a range with \<open>min \<le> max\<close>, every sequence
  of calls keeps the cursor at most \<open>max + 1\<close>. If every \<open>free_channel\<close> argument is
  an id that \<open>alloc_channel\<close> has issued before the call, the queue contains only
  issued ids. If every \<open>free_channel\<close> argument is live at the moment of the call and
  \<open>max\<close> is below the largest channel value, no id is in the queue while it is live.
\<close>

theorem tracker_invariant:
  assumes "min_c \<le> max_c"
  shows "cursor_bounded (tracker (run xs (start min_c max_c))) \<and>
         (releases_issued xs (start min_c max_c) \<longrightarrow>
            queue_issued (run xs (start min_c max_c))) \<and>
         (releases_live xs (start min_c max_c) \<longrightarrow> max_c \<noteq> - 1 \<longrightarrow>
            queue_not_live (run xs (start min_c max_c)))"
proof (intro conjI impI)
  show "cursor_bounded (tracker (run xs (start min_c max_c)))"
    using assms by (intro cursor_bounded_run cursor_bounded_start)
next
  assume "releases_issued xs (start min_c max_c)"
  with queue_issued_start show "queue_issued (run xs (start min_c max_c))"
    by (rule queue_issued_run)
next
  assume "releases_live xs (start min_c max_c)" and "max_c \<noteq> - 1"
  then have "separated (run xs (start min_c max_c))"
    using separated_start by (intro separated_run) (simp_all add: m_max_start)
  then show "queue_not_live (run xs (start min_c max_c))"
    by (auto simp: separated_def queue_not_live_def)
qed

text \<open>
  The amended statement at two concrete runs over \<open>[100,102]\<close>: one that releases an
  issued id twice, where the queue still holds only issued ids, and one that releases
  only live ids and leaves 101 in the queue.
\<close>

theorem tracker_invariant_witness:
  "(100 :: 64 word) \<le> 102 \<and>
   releases_issued [Alloc, Free 100, Free 100] (start (100 :: 64 word) 102) \<and>
   m_unused_channels (tracker (run [Alloc, Free 100, Free 100] (start (100 :: 64 word) 102)))
     = [100, 100] \<and>
   cursor_bounded (tracker (run [Alloc, Free 100, Free 100] (start (100 :: 64 word) 102))) \<and>
   queue_issued (run [Alloc, Free 100, Free 100] (start (100 :: 64 word) 102)) \<and>
   (102 :: 64 word) \<noteq> - 1 \<and>
   releases_live [Alloc, Alloc, Free 100, Alloc, Alloc, Free 101] (start (100 :: 64 word) 102) \<and>
   m_unused_channels (tracker (run [Alloc, Alloc, Free 100, Alloc, Alloc, Free 101]
     (start (100 :: 64 word) 102))) = [101] \<and>
   cursor_bounded (tracker (run [Alloc, Alloc, Free 100, Alloc, Alloc, Free 101]
     (start (100 :: 64 word) 102))) \<and>
   queue_not_live (run [Alloc, Alloc, Free 100, Alloc, Alloc, Free 101]
     (start (100 :: 64 word) 102))"
proof -
  have a: "(100 :: 64 word) \<le> 102" by simp
  have b: "(102 :: 64 word) \<noteq> - 1" by simp
  have c: "releases_issued [Alloc, Free 100, Free 100] (start (100 :: 64 word) 102)"
    by (simp add: eval_calls del: step.simps)
  have d: "m_unused_channels (tracker (run [Alloc, Free 100, Free 100]
             (start (100 :: 64 word) 102))) = [100, 100]"
    by (simp add: eval_calls del: step.simps)
  have e: "releases_live [Alloc, Alloc, Free 100, Alloc, Alloc, Free 101]
             (start (100 :: 64 word) 102)"
    by (simp add: eval_calls del: step.simps)
  have f: "m_unused_channels (tracker (run [Alloc, Alloc, Free 100, Alloc, Alloc, Free 101]
             (start (100 :: 64 word) 102))) = [101]"
    by (simp add: eval_calls del: step.simps)
  show ?thesis
    using a b c d e f
      tracker_invariant [OF a, of "[Alloc, Free 100, Free 100]"]
      tracker_invariant [OF a, of "[Alloc, Alloc, Free 100, Alloc, Alloc, Free 101]"]
    by blast
qed

subsection \<open>The value 0\<close>

text \<open>
  Claim C10. The claim holds for every range whose \<open>max\<close> is below the largest channel
  value, as the lemma after the theorem shows. It fails on the code for the range
  \<open>[2^64 - 2, 2^64 - 1]\<close> of 64-bit channels, which excludes 0: with no release at
  all, the third \<open>alloc_channel\<close> call takes the cursor branch with the wrapped cursor
  and returns 0, and the fourth returns 1. Both count as handed out.
\<close>

theorem wrapped_cursor_hands_out_zero:
  "returned (run [Alloc, Alloc, Alloc, Alloc]
      (start (18446744073709551614 :: 64 word) 18446744073709551615))
     = [18446744073709551614, 18446744073709551615, 0, 1] \<and>
   issued (run [Alloc, Alloc, Alloc, Alloc]
      (start (18446744073709551614 :: 64 word) 18446744073709551615))
     = [18446744073709551614, 18446744073709551615, 0, 1]"
  by (simp add: eval_calls del: step.simps)

lemma zero_free_step_Alloc:
  assumes "zero_free h" and "m_max (tracker h) \<noteq> - 1"
  shows "zero_free (step Alloc h)"
proof (cases "m_next (tracker h) \<le> m_max (tracker h)")
  case True
  then have "m_next (tracker h) \<noteq> - 1" using assms(2) by (rule cursor_below_top)
  then have "m_next (tracker h) + 1 \<noteq> 0" by (rule cursor_succ_nonzero)
  moreover have "m_next (tracker h) \<noteq> 0" using assms(1) True by (auto simp: zero_free_def)
  ultimately show ?thesis using assms(1) True
    by (auto simp: zero_free_def alloc_channel_def hands_out_def)
next
  case False
  then show ?thesis using assms(1)
    by (cases "m_unused_channels (tracker h)")
       (auto simp: zero_free_def alloc_channel_def hands_out_def queue_empty_def
          queue_front_def queue_pop_def Let_def)
qed

lemma zero_free_step_Free:
  assumes "zero_free h" and "c \<in> set (issued h)"
  shows "zero_free (step (Free c) h)"
  using assms by (auto simp: zero_free_def free_channel_def queue_push_def)

lemma zero_free_run:
  "zero_free h \<Longrightarrow> m_max (tracker h) \<noteq> - 1 \<Longrightarrow> releases_issued xs h \<Longrightarrow> zero_free (run xs h)"
proof (induction xs arbitrary: h)
  case Nil
  then show ?case by simp
next
  case (Cons x xs)
  show ?case
  proof (cases x)
    case Alloc
    with Cons show ?thesis by (simp add: zero_free_step_Alloc del: step.simps)
  next
    case (Free c)
    with Cons show ?thesis by (simp add: zero_free_step_Free del: step.simps)
  qed
qed

text \<open>
  Below the largest channel value the encoding is unambiguous: when the range excludes
  0 and only issued ids are released, 0 is never handed out.
\<close>

lemma zero_never_handed_out:
  assumes "min_c \<noteq> 0" and "max_c \<noteq> - 1" and "releases_issued xs (start min_c max_c)"
  shows "0 \<notin> set (issued (run xs (start min_c max_c)))"
proof -
  have "zero_free (start min_c max_c)"
    using assms(1) by (simp add: zero_free_def start_def ChannelTracker_def)
  moreover have "m_max (tracker (start min_c max_c)) \<noteq> - 1"
    using assms(2) by (simp add: start_def ChannelTracker_def)
  ultimately have "zero_free (run xs (start min_c max_c))"
    using assms(3) by (rule zero_free_run)
  then show ?thesis by (simp add: zero_free_def)
qed

section \<open>Results on the agent\<close>

subsection \<open>The schema hash\<close>

text \<open>
  Claim C6. The constructor sets \<open>m_hash\<close> once: to the configured override when it
  is greater than 0, whatever the schema is, and otherwise to the value of the hash
  function on the schema, so that equal schemas yield equal hashes. None of the
  callbacks of the agent changes it afterwards.
\<close>

theorem schema_hash_resolved_once:
  assumes "ClientAgent env roleconfig = (Constructed this, evs)"
  shows "(0 < override_hash roleconfig \<longrightarrow> m_hash this = override_hash roleconfig) \<and>
         (override_hash roleconfig = 0 \<longrightarrow> m_hash this = legacy_hash env (g_dcf env)) \<and>
         m_hash (fst (handle_tcp this sock)) = m_hash this \<and>
         m_hash (fst (handle_ssl this stream)) = m_hash this \<and>
         m_hash (fst (handle_datagram this dg)) = m_hash this"
proof -
  have "m_hash this =
          (if 0 < override_hash roleconfig then override_hash roleconfig
           else legacy_hash env (g_dcf env))"
    using assms
    by (auto simp: ClientAgent_def begin_listening_def Let_def split: if_splits)
  moreover have "m_hash (fst (handle_tcp this sock)) = m_hash this"
    by (simp add: handle_tcp_def split: option.split)
  moreover have "m_hash (fst (handle_ssl this stream)) = m_hash this"
    by (simp add: handle_ssl_def split: option.split)
  moreover have "m_hash (fst (handle_datagram this dg)) = m_hash this"
    by (simp add: handle_datagram_def)
  ultimately show ?thesis by simp
qed

text \<open>Two constructions in the sample environment: override 5 and override 0.\<close>

theorem schema_hash_resolved_once_witness:
  "ClientAgent sample_env ((default_roleconfig (100 :: 64 word) 102)\<lparr>override_hash := 5\<rparr>) =
     (Constructed (sample_agent\<lparr>m_hash := 5\<rparr>), [Bind ''0.0.0.0:7198'' 7198, Start]) \<and>
   m_hash (sample_agent\<lparr>m_hash := 5\<rparr>) = 5 \<and>
   ClientAgent sample_env (default_roleconfig (100 :: 64 word) 102) =
     (Constructed sample_agent, [Bind ''0.0.0.0:7198'' 7198, Start]) \<and>
   m_hash sample_agent = legacy_hash sample_env (g_dcf sample_env)"
proof -
  have a: "ClientAgent sample_env
             ((default_roleconfig (100 :: 64 word) 102)\<lparr>override_hash := 5\<rparr>) =
           (Constructed (sample_agent\<lparr>m_hash := 5\<rparr>), [Bind ''0.0.0.0:7198'' 7198, Start])"
    by (simp add: ClientAgent_def begin_listening_def default_roleconfig_def sample_env_def
          sample_agent_def)
  have b: "ClientAgent sample_env (default_roleconfig (100 :: 64 word) 102) =
           (Constructed sample_agent, [Bind ''0.0.0.0:7198'' 7198, Start])"
    by (simp add: ClientAgent_def begin_listening_def default_roleconfig_def sample_env_def
          sample_agent_def)
  have c: "0 < override_hash ((default_roleconfig (100 :: 64 word) 102)\<lparr>override_hash := 5\<rparr>)"
    by simp
  have d: "override_hash (default_roleconfig (100 :: 64 word) 102) = 0"
    by (simp add: default_roleconfig_def)
  have "m_hash (sample_agent\<lparr>m_hash := 5\<rparr>) = 5"
    using schema_hash_resolved_once [where dg = "()", OF a] c by simp
  moreover have "m_hash sample_agent = legacy_hash sample_env (g_dcf sample_env)"
    using schema_hash_resolved_once [where dg = "()", OF b] d by blast
  ultimately show ?thesis using a b by blast
qed

subsection \<open>The choice of transport\<close>

text \<open>
  Claim C7. When exactly one of the certificate and the key file is empty, the
  constructor writes one fatal diagnostic and calls \<open>exit(1)\<close>; the acceptor is never
  bound.
\<close>

theorem tls_material_asymmetry_is_fatal:
  assumes "(tls_cert roleconfig = []) \<noteq> (tls_key roleconfig = [])"
  shows "ClientAgent env roleconfig =
           (Exited 1,
            [Log Fatal [Str (''TLS requested but either certificate or key is missing.''
                             @ [CHR 0x0A])]]) \<and>
         \<not> list_ex is_Bind (snd (ClientAgent env roleconfig))"
  using assms by (auto simp: ClientAgent_def Let_def)

text \<open>Both asymmetric configurations: certificate without key, key without certificate.\<close>

theorem tls_material_asymmetry_is_fatal_witness:
  "(tls_cert ((default_roleconfig (100 :: 64 word) 102)\<lparr>tls_cert := ''cert.pem''\<rparr>) = [])
     \<noteq> (tls_key ((default_roleconfig (100 :: 64 word) 102)\<lparr>tls_cert := ''cert.pem''\<rparr>) = []) \<and>
   fst (ClientAgent sample_env
          ((default_roleconfig (100 :: 64 word) 102)\<lparr>tls_cert := ''cert.pem''\<rparr>)) = Exited 1 \<and>
   (tls_cert ((default_roleconfig (100 :: 64 word) 102)\<lparr>tls_key := ''key.pem''\<rparr>) = [])
     \<noteq> (tls_key ((default_roleconfig (100 :: 64 word) 102)\<lparr>tls_key := ''key.pem''\<rparr>) = []) \<and>
   fst (ClientAgent sample_env
          ((default_roleconfig (100 :: 64 word) 102)\<lparr>tls_key := ''key.pem''\<rparr>)) = Exited 1"
proof -
  have a: "(tls_cert ((default_roleconfig (100 :: 64 word) 102)\<lparr>tls_cert := ''cert.pem''\<rparr>) = [])
     \<noteq> (tls_key ((default_roleconfig (100 :: 64 word) 102)\<lparr>tls_cert := ''cert.pem''\<rparr>) = [])"
    by (simp add: default_roleconfig_def)
  have b: "(tls_cert ((default_roleconfig (100 :: 64 word) 102)\<lparr>tls_key := ''key.pem''\<rparr>) = [])
     \<noteq> (tls_key ((default_roleconfig (100 :: 64 word) 102)\<lparr>tls_key := ''key.pem''\<rparr>) = [])"
    by (simp add: default_roleconfig_def)
  show ?thesis
    using a b tls_material_asymmetry_is_fatal [OF a, of sample_env]
      tls_material_asymmetry_is_fatal [OF b, of sample_env]
    by (simp only: fst_conv simp_thms)
qed

text \<open>
  Claim C8. With both TLS fields empty and a successful bind, the constructor creates
  the plaintext acceptor, binds it to the configured address and starts it, and it
  writes nothing to the log: the branch holds only the comment
  \<^verbatim>\<open>TODO: Yell loudly at the user that this shouldn't be used in production\<close>.
  The warning the claim expects is therefore missing. The evaluation is on the default
  configuration over the range \<open>[100,102]\<close>.
\<close>

theorem plaintext_listener_without_warning:
  "ClientAgent sample_env (default_roleconfig (100 :: 64 word) 102) =
     (Constructed sample_agent, [Bind ''0.0.0.0:7198'' 7198, Start]) \<and>
   m_net_acceptor sample_agent = Some TcpAcceptor \<and>
   \<not> list_ex is_Log (snd (ClientAgent sample_env (default_roleconfig (100 :: 64 word) 102)))"
  by (simp add: ClientAgent_def begin_listening_def default_roleconfig_def sample_env_def
        sample_agent_def)

text \<open>
  The remaining parts of the claim hold in general: the plaintext acceptor is chosen
  and bound to the configured address when both fields are empty, and the TLS
  acceptor is built from the material and the version flags when both are present.
\<close>

lemma plaintext_listener_selected:
  assumes "tls_cert roleconfig = []" and "tls_key roleconfig = []"
    and "bind_ec env (bind_addr roleconfig) 7198 = 0"
  shows "\<exists>this. ClientAgent env roleconfig =
           (Constructed this, [Bind (bind_addr roleconfig) 7198, Start]) \<and>
           m_net_acceptor this = Some TcpAcceptor"
  using assms by (simp add: ClientAgent_def begin_listening_def Let_def)

lemma tls_listener_built:
  assumes "tls_cert roleconfig \<noteq> []" and "tls_key roleconfig \<noteq> []"
    and "use_certificate_file env (tls_cert roleconfig)"
    and "use_private_key_file env (tls_key roleconfig)"
    and "tls_chain roleconfig = [] \<or> use_certificate_chain_file env (tls_chain roleconfig)"
    and "bind_ec env (bind_addr roleconfig) 7198 = 0"
  shows "\<exists>this. ClientAgent env roleconfig =
           (Constructed this, [Bind (bind_addr roleconfig) 7198, Start]) \<and>
           m_net_acceptor this = Some (SslAcceptor
             \<lparr>ctx_options = tls_options env roleconfig,
              ctx_certificate = tls_cert roleconfig,
              ctx_private_key = tls_key roleconfig,
              ctx_chain = (if tls_chain roleconfig \<noteq> [] then Some (tls_chain roleconfig)
                           else None)\<rparr>)"
  using assms by (auto simp: ClientAgent_def begin_listening_def Let_def)

subsection \<open>A peer that is gone\<close>

text \<open>
  Claim C9. When resolving the remote address throws, each of the two accept callbacks
  returns with the agent unchanged, its channel tracker included, and with no event
  at all: no client is instantiated, nothing is logged, the process does not exit.
\<close>

theorem vanished_peer_is_dropped:
  assumes "remote_endpoint sock = None" and "remote_endpoint (next_layer stream) = None"
  shows "handle_tcp this sock = (this, []) \<and> handle_ssl this stream = (this, [])"
  using assms by (simp add: handle_tcp_def handle_ssl_def)

text \<open>A plain socket and a TLS stream whose peers are gone, at the sample agent.\<close>

theorem vanished_peer_is_dropped_witness:
  "remote_endpoint \<lparr>remote_endpoint = None\<rparr> = None \<and>
   remote_endpoint (next_layer \<lparr>next_layer = \<lparr>remote_endpoint = None\<rparr>\<rparr>) = None \<and>
   handle_tcp sample_agent \<lparr>remote_endpoint = None\<rparr> = (sample_agent, []) \<and>
   handle_ssl sample_agent \<lparr>next_layer = \<lparr>remote_endpoint = None\<rparr>\<rparr> = (sample_agent, [])"
proof -
  have a: "remote_endpoint \<lparr>remote_endpoint = None\<rparr> = None" by simp
  have b: "remote_endpoint (next_layer \<lparr>next_layer = \<lparr>remote_endpoint = None\<rparr>\<rparr>) = None"
    by simp
  show ?thesis using a b vanished_peer_is_dropped [OF a b, of sample_agent] by blast
qed

end
